theory Spec2Isabelle
  imports Main
begin

section \<open>model.py: the data model\<close>

text \<open>
  The pydantic models are records. Python's \<open>int\<close> is unbounded, so every integer field
  is an \<open>int\<close>. Several models share field names (\<open>level\<close>, \<open>count\<close>, \<open>topic\<close>); they are
  written qualified by the record they belong to.
\<close>

record LevelAvailability =
  level :: int
  count :: int

record TopicAvailability =
  topic :: string
  available :: "LevelAvailability list"

record LevelProgress =
  level :: int
  solved :: int
  attempted :: int

record TopicProgress =
  topic :: string
  progress_by_level :: "LevelProgress list"

record RecommendationRequest =
  user_id :: int
  total_questions :: int
  user_topics :: "TopicAvailability list"
  user_progress :: "TopicProgress list"

record LevelRecommendation =
  level :: int
  count :: int

record TopicRecommendation =
  name :: string
  recommendations :: "LevelRecommendation list"

record RecommendationResponse =
  topics :: "TopicRecommendation list"

subsection \<open>Field constraints\<close>

text \<open>
  \<open>Field(..., ge=0)\<close> and \<open>Field(..., ge=1)\<close> are checked by pydantic when a model is built.
  For the input models they are predicates that every parsed request satisfies.
\<close>

definition LevelAvailability_fields_ok :: "LevelAvailability \<Rightarrow> bool" where
  "LevelAvailability_fields_ok l = (0 \<le> LevelAvailability.count l)"

definition TopicAvailability_fields_ok :: "TopicAvailability \<Rightarrow> bool" where
  "TopicAvailability_fields_ok t = list_all LevelAvailability_fields_ok (available t)"

definition LevelProgress_fields_ok :: "LevelProgress \<Rightarrow> bool" where
  "LevelProgress_fields_ok p = (0 \<le> solved p \<and> 0 \<le> attempted p)"

definition TopicProgress_fields_ok :: "TopicProgress \<Rightarrow> bool" where
  "TopicProgress_fields_ok p = list_all LevelProgress_fields_ok (progress_by_level p)"

definition RecommendationRequest_fields_ok :: "RecommendationRequest \<Rightarrow> bool" where
  "RecommendationRequest_fields_ok r =
     (1 \<le> total_questions r
      \<and> list_all TopicAvailability_fields_ok (user_topics r)
      \<and> list_all TopicProgress_fields_ok (user_progress r))"

subsection \<open>Errors\<close>

text \<open>
  Every exception the modelled code can raise is a value. \<open>ValueError\<close> carries its
  message. \<open>ValidationError\<close> is pydantic's, raised when a model is built from a field
  value that breaks its constraint; it is a subclass of Python's \<open>ValueError\<close>.
\<close>

datatype error =
    ValueError string
  | ValidationError
  | ZeroDivisionError
  | NotImplementedError

text \<open>Python's \<open>//\<close> and \<open>%\<close> on integers: floor division, raising on a zero divisor.\<close>

definition py_floordiv :: "int \<Rightarrow> int \<Rightarrow> error + int" where
  "py_floordiv a b = (if b = 0 then Inl ZeroDivisionError else Inr (a div b))"

definition py_mod :: "int \<Rightarrow> int \<Rightarrow> error + int" where
  "py_mod a b = (if b = 0 then Inl ZeroDivisionError else Inr (a mod b))"

text \<open>Building a \<open>LevelRecommendation\<close>: \<open>count\<close> has \<open>ge=0\<close>.\<close>

definition LevelRecommendation_new :: "int \<Rightarrow> int \<Rightarrow> error + LevelRecommendation" where
  "LevelRecommendation_new lv c =
     (if c < 0 then Inl ValidationError
      else Inr \<lparr>LevelRecommendation.level = lv, LevelRecommendation.count = c\<rparr>)"

text \<open>The derived properties \<open>total_recommended\<close> of the two response models.\<close>

definition TopicRecommendation_total_recommended :: "TopicRecommendation \<Rightarrow> int" where
  "TopicRecommendation_total_recommended t =
     sum_list (map LevelRecommendation.count (recommendations t))"

definition total_recommended :: "RecommendationResponse \<Rightarrow> int" where
  "total_recommended r = sum_list (map TopicRecommendation_total_recommended (topics r))"

section \<open>recommendation\_service.py\<close>

subsection \<open>Distribution strategies\<close>

datatype DistributionStrategy =
    DistributionStrategy_base
  | EvenDistributionStrategy
  | ProgressAwareDistributionStrategy

text \<open>The pre-clamp count of the level at index \<open>i\<close>.\<close>

definition questions_for_level :: "int \<Rightarrow> int \<Rightarrow> int \<Rightarrow> int" where
  "questions_for_level base_questions_per_level extra_questions i =
     base_questions_per_level + (if i < extra_questions then 1 else 0)"

text \<open>
  The body of \<open>for i, level_data in enumerate(available_levels)\<close>, from index \<open>i\<close> on.
  A failing construction leaves the loop with its exception.
\<close>

fun distribute_loop ::
  "int \<Rightarrow> int \<Rightarrow> int \<Rightarrow> LevelAvailability list \<Rightarrow> error + LevelRecommendation list" where
  "distribute_loop base_questions_per_level extra_questions i [] = Inr []"
| "distribute_loop base_questions_per_level extra_questions i (level_data # rest) =
     (let recommended_count =
            min (questions_for_level base_questions_per_level extra_questions i)
                (LevelAvailability.count level_data)
      in case LevelRecommendation_new (LevelAvailability.level level_data) recommended_count of
           Inl e \<Rightarrow> Inl e
         | Inr r \<Rightarrow>
             (case distribute_loop base_questions_per_level extra_questions (i + 1) rest of
                Inl e \<Rightarrow> Inl e
              | Inr rs \<Rightarrow> Inr (r # rs)))"

definition Even_distribute_questions ::
  "LevelAvailability list \<Rightarrow> int \<Rightarrow> TopicProgress option \<Rightarrow> error + LevelRecommendation list" where
  "Even_distribute_questions available_levels total_qs topic_progress =
     (if available_levels = [] then Inr []
      else
        let level_count = int (length available_levels) in
        case py_floordiv total_qs level_count of
          Inl e \<Rightarrow> Inl e
        | Inr base_questions_per_level \<Rightarrow>
            (case py_mod total_qs level_count of
               Inl e \<Rightarrow> Inl e
             | Inr extra_questions \<Rightarrow>
                 distribute_loop base_questions_per_level extra_questions 0 available_levels))"

definition ProgressAware_distribute_questions ::
  "LevelAvailability list \<Rightarrow> int \<Rightarrow> TopicProgress option \<Rightarrow> error + LevelRecommendation list" where
  "ProgressAware_distribute_questions available_levels total_qs topic_progress =
     Even_distribute_questions available_levels total_qs topic_progress"

text \<open>Method dispatch on the strategy object.\<close>

fun distribute_questions ::
  "DistributionStrategy \<Rightarrow> LevelAvailability list \<Rightarrow> int \<Rightarrow> TopicProgress option
     \<Rightarrow> error + LevelRecommendation list" where
  "distribute_questions DistributionStrategy_base ls n p = Inl NotImplementedError"
| "distribute_questions EvenDistributionStrategy ls n p = Even_distribute_questions ls n p"
| "distribute_questions ProgressAwareDistributionStrategy ls n p =
     ProgressAware_distribute_questions ls n p"

subsection \<open>The service\<close>

record RecommendationService =
  distribution_strategy :: DistributionStrategy

definition RecommendationService_init :: RecommendationService where
  "RecommendationService_init = \<lparr>distribution_strategy = EvenDistributionStrategy\<rparr>"

text \<open>The dict comprehension: a later entry for the same topic name replaces an earlier one.\<close>

definition create_progress_lookup :: "TopicProgress list \<Rightarrow> (string \<rightharpoonup> TopicProgress)" where
  "create_progress_lookup ps = foldl (\<lambda>m p. m(TopicProgress.topic p \<mapsto> p)) Map.empty ps"

definition calculate_topic_allocation ::
  "RecommendationService \<Rightarrow> TopicAvailability \<Rightarrow> int \<Rightarrow> TopicAvailability list \<Rightarrow> error + int" where
  "calculate_topic_allocation self current_topic total_qs all_topics =
     (let total_topics = int (length all_topics)
      in if total_topics > 0 then py_floordiv total_qs total_topics else Inr 0)"

text \<open>
  \<open>all_topics or [topic]\<close>: the default \<open>None\<close> and the empty list are both falsy.
\<close>

definition recommend_for_topic ::
  "RecommendationService \<Rightarrow> TopicAvailability \<Rightarrow> int \<Rightarrow> TopicProgress option
     \<Rightarrow> TopicAvailability list option \<Rightarrow> error + TopicRecommendation" where
  "recommend_for_topic self t total_qs topic_progress all_topics =
     (case calculate_topic_allocation self t total_qs
             (case all_topics of
                None \<Rightarrow> [t]
              | Some ts \<Rightarrow> if ts = [] then [t] else ts) of
        Inl e \<Rightarrow> Inl e
      | Inr topic_question_allocation \<Rightarrow>
          (case distribute_questions (distribution_strategy self) (available t)
                  topic_question_allocation topic_progress of
             Inl e \<Rightarrow> Inl e
           | Inr level_recommendations \<Rightarrow>
               Inr \<lparr>name = TopicAvailability.topic t, recommendations = level_recommendations\<rparr>))"

text \<open>The loop \<open>for topic in request.user_topics\<close> over the topics still to visit.\<close>

fun recommend_loop ::
  "RecommendationService \<Rightarrow> (string \<rightharpoonup> TopicProgress) \<Rightarrow> RecommendationRequest
     \<Rightarrow> TopicAvailability list \<Rightarrow> error + TopicRecommendation list" where
  "recommend_loop self progress_lookup request [] = Inr []"
| "recommend_loop self progress_lookup request (t # rest) =
     (case recommend_for_topic self t (total_questions request)
             (progress_lookup (TopicAvailability.topic t)) (Some (user_topics request)) of
        Inl e \<Rightarrow> Inl e
      | Inr recommendation \<Rightarrow>
          (case recommend_loop self progress_lookup request rest of
             Inl e \<Rightarrow> Inl e
           | Inr rs \<Rightarrow> Inr (recommendation # rs)))"

definition generate_recommendations ::
  "RecommendationService \<Rightarrow> RecommendationRequest \<Rightarrow> error + RecommendationResponse" where
  "generate_recommendations self request =
     (let progress_lookup = create_progress_lookup (user_progress request)
      in case recommend_loop self progress_lookup request (user_topics request) of
           Inl e \<Rightarrow> Inl e
         | Inr topic_recommendations \<Rightarrow> Inr \<lparr>topics = topic_recommendations\<rparr>)"

section \<open>main.py\<close>

definition recommendation_service :: RecommendationService where
  "recommendation_service = RecommendationService_init"

definition msg_no_topics :: string where
  "msg_no_topics = ''At least one topic must be provided''"

definition msg_total_questions :: string where
  "msg_total_questions = ''Total questions must be greater than 0''"

definition msg_no_levels :: "string \<Rightarrow> string" where
  "msg_no_levels t =
     ''Topic '' @ [CHR 0x27] @ t @ [CHR 0x27] @ '' must have at least one available level''"

definition msg_no_questions :: "string \<Rightarrow> string" where
  "msg_no_questions t =
     ''Topic '' @ [CHR 0x27] @ t @ [CHR 0x27] @ '' has no available questions''"

text \<open>The loop \<open>for topic in request.user_topics\<close> of the validation.\<close>

fun validate_topics :: "TopicAvailability list \<Rightarrow> error + unit" where
  "validate_topics [] = Inr ()"
| "validate_topics (t # rest) =
     (if available t = [] then Inl (ValueError (msg_no_levels (TopicAvailability.topic t)))
      else
        let total_available = sum_list (map LevelAvailability.count (available t))
        in if total_available = 0
           then Inl (ValueError (msg_no_questions (TopicAvailability.topic t)))
           else validate_topics rest)"

definition validate_recommendation_request :: "RecommendationRequest \<Rightarrow> error + unit" where
  "validate_recommendation_request request =
     (if user_topics request = [] then Inl (ValueError msg_no_topics)
      else if total_questions request \<le> 0 then Inl (ValueError msg_total_questions)
      else validate_topics (user_topics request))"

text \<open>
  The endpoint. \<open>detail\<close> is the text of the HTTP error: \<open>str(e)\<close> of a \<open>ValueError\<close> is
  its message; what pydantic renders for its own error is the library's wording and is
  left opaque.
\<close>

datatype detail = Message string | Pydantic_message

datatype HTTPException = HTTPException (status_code: int) (detail: detail)

fun handle_exception :: "error \<Rightarrow> HTTPException" where
  "handle_exception (ValueError m) = HTTPException 400 (Message m)"
| "handle_exception ValidationError = HTTPException 400 Pydantic_message"
| "handle_exception e =
     HTTPException 500
       (Message ''Internal server error occurred while processing recommendation'')"

definition recommend_questions :: "RecommendationRequest \<Rightarrow> HTTPException + RecommendationResponse" where
  "recommend_questions request =
     (case validate_recommendation_request request of
        Inl e \<Rightarrow> Inl (handle_exception e)
      | Inr u \<Rightarrow>
          (case generate_recommendations recommendation_service request of
             Inl e \<Rightarrow> Inl (handle_exception e)
           | Inr response \<Rightarrow> Inr response))"

section \<open>Reference formulations and example data\<close>

text \<open>
  The even distribution as section 4.2 of the specification words it: with \<open>L\<close> levels,
  \<open>base = A // L\<close> and \<open>extra = A mod L\<close>, the level at index \<open>i\<close> receives
  \<open>min (base + (1 if i < extra else 0)) count\<^sub>i\<close>.
\<close>

definition even_distribution :: "LevelAvailability list \<Rightarrow> int \<Rightarrow> LevelRecommendation list" where
  "even_distribution levels A =
     (let L = int (length levels); base = A div L; extra = A mod L
      in map (\<lambda>i. \<lparr>LevelRecommendation.level = LevelAvailability.level (levels ! i),
                     LevelRecommendation.count =
                       min (base + (if int i < extra then 1 else 0))
                           (LevelAvailability.count (levels ! i))\<rparr>)
             [0..<length levels])"

text \<open>The recommendation of one topic whose allocation is \<open>a\<close>.\<close>

definition expected_topic :: "int \<Rightarrow> TopicAvailability \<Rightarrow> TopicRecommendation" where
  "expected_topic a t =
     \<lparr>name = TopicAvailability.topic t, recommendations = even_distribution (available t) a\<rparr>"

text \<open>Shorthands for concrete inputs.\<close>

definition mk_level :: "int \<Rightarrow> int \<Rightarrow> LevelAvailability" where
  "mk_level l c = \<lparr>LevelAvailability.level = l, LevelAvailability.count = c\<rparr>"

definition mk_topic :: "string \<Rightarrow> LevelAvailability list \<Rightarrow> TopicAvailability" where
  "mk_topic n ls = \<lparr>TopicAvailability.topic = n, available = ls\<rparr>"

definition mk_request :: "int \<Rightarrow> TopicAvailability list \<Rightarrow> TopicProgress list \<Rightarrow> RecommendationRequest" where
  "mk_request T ts ps = \<lparr>user_id = 1, total_questions = T, user_topics = ts, user_progress = ps\<rparr>"

definition mk_rec :: "int \<Rightarrow> int \<Rightarrow> LevelRecommendation" where
  "mk_rec l c = \<lparr>LevelRecommendation.level = l, LevelRecommendation.count = c\<rparr>"

text \<open>A request with two topics, and the response computed for it.\<close>

definition request_7 :: RecommendationRequest where
  "request_7 = mk_request 7 [mk_topic ''A'' [mk_level 1 10], mk_topic ''B'' [mk_level 1 2, mk_level 2 100]] []"

definition response_7 :: RecommendationResponse where
  "response_7 = \<lparr>topics = [\<lparr>name = ''A'', recommendations = [mk_rec 1 3]\<rparr>,
                            \<lparr>name = ''B'', recommendations = [mk_rec 1 2, mk_rec 2 1]\<rparr>]\<rparr>"

text \<open>The same request with a progress record for topic \<open>A\<close>.\<close>

definition progress_a :: TopicProgress where
  "progress_a = \<lparr>TopicProgress.topic = ''A'',
       progress_by_level = [\<lparr>LevelProgress.level = 1, solved = 4, attempted = 9\<rparr>]\<rparr>"

definition request_7_progress :: RecommendationRequest where
  "request_7_progress = request_7\<lparr>user_progress := [progress_a]\<rparr>"

text \<open>Requests that validation rejects at a topic after the first.\<close>

definition request_bad :: RecommendationRequest where
  "request_bad = mk_request 5
     [mk_topic ''A'' [mk_level 1 10], mk_topic ''B'' [], mk_topic ''C'' [mk_level 1 0]] []"

definition request_zero :: RecommendationRequest where
  "request_zero = mk_request 5
     [mk_topic ''A'' [mk_level 1 10], mk_topic ''C'' [mk_level 1 0, mk_level 2 0], mk_topic ''B'' []] []"

lemmas example_defs = mk_level_def mk_topic_def mk_request_def mk_rec_def

lemmas eval_defs =
  generate_recommendations_def create_progress_lookup_def recommend_for_topic_def
  calculate_topic_allocation_def Even_distribute_questions_def
  ProgressAware_distribute_questions_def py_floordiv_def py_mod_def
  questions_for_level_def LevelRecommendation_new_def Let_def recommendation_service_def
  RecommendationService_init_def validate_recommendation_request_def
  recommend_questions_def RecommendationRequest_fields_ok_def
  TopicAvailability_fields_ok_def LevelAvailability_fields_ok_def
  TopicProgress_fields_ok_def LevelProgress_fields_ok_def
  TopicRecommendation_total_recommended_def total_recommended_def

section \<open>The level distributor\<close>

lemma distribute_loop_closed:
  assumes "0 \<le> b" and "list_all LevelAvailability_fields_ok ls"
  shows "distribute_loop b e (int k) ls =
           Inr (map (\<lambda>j. \<lparr>LevelRecommendation.level = LevelAvailability.level (ls ! j),
                            LevelRecommendation.count =
                              min (questions_for_level b e (int (k + j)))
                                  (LevelAvailability.count (ls ! j))\<rparr>)
                    [0..<length ls])"
  using assms(2)
proof (induction ls arbitrary: k)
  case Nil
  show ?case by simp
next
  case (Cons a ls)
  from Cons.prems have rest: "list_all LevelAvailability_fields_ok ls"
    by simp
  from Cons.prems have a: "0 \<le> LevelAvailability.count a"
    by (simp add: LevelAvailability_fields_ok_def)
  have q: "0 \<le> questions_for_level b e (int k)"
    using assms(1) by (simp add: questions_for_level_def)
  have step: "int k + 1 = int (Suc k)" by simp
  show ?case
    unfolding distribute_loop.simps Let_def step Cons.IH [OF rest, of "Suc k"]
    using a q
    by (auto simp: LevelRecommendation_new_def map_upt_Suc add.left_commute simp del: upt_Suc)
qed

lemma Even_distribute_closed:
  assumes "0 \<le> A" and "list_all LevelAvailability_fields_ok ls"
  shows "Even_distribute_questions ls A p = Inr (even_distribution ls A)"
proof (cases "ls = []")
  case True
  then show ?thesis by (simp add: Even_distribute_questions_def even_distribution_def)
next
  case False
  then have L: "0 < int (length ls)" by simp
  have b: "0 \<le> A div int (length ls)"
    using assms(1) L by (simp add: pos_imp_zdiv_nonneg_iff)
  show ?thesis
    using False L distribute_loop_closed [OF b assms(2), of "A mod int (length ls)" 0]
    by (simp add: Even_distribute_questions_def even_distribution_def py_floordiv_def
        py_mod_def Let_def questions_for_level_def)
qed

lemma sum_extra:
  "sum_list (map (\<lambda>i. if int i < e then (1::int) else 0) [0..<n]) = min (max e 0) (int n)"
  by (induction n) auto

lemma sum_questions_for_level:
  assumes "0 < n"
  shows "sum_list (map (\<lambda>i. questions_for_level (A div int n) (A mod int n) (int i)) [0..<n]) = A"
proof -
  have "0 \<le> A mod int n" and "A mod int n < int n"
    using assms by simp_all
  then have e: "min (max (A mod int n) 0) (int n) = A mod int n"
    by linarith
  have "sum_list (map (\<lambda>i. questions_for_level (A div int n) (A mod int n) (int i)) [0..<n])
        = sum_list (map (\<lambda>i. A div int n) [0..<n])
          + sum_list (map (\<lambda>i. if int i < A mod int n then (1::int) else 0) [0..<n])"
    unfolding questions_for_level_def by (simp add: sum_list_addf)
  also have "\<dots> = int n * (A div int n) + A mod int n"
    by (simp add: sum_extra e sum_list_triv)
  also have "\<dots> = A" by simp
  finally show ?thesis .
qed

lemma length_even_distribution: "length (even_distribution ls A) = length ls"
  by (simp add: even_distribution_def Let_def)

lemma levels_even_distribution:
  "map LevelRecommendation.level (even_distribution ls A) = map LevelAvailability.level ls"
  by (rule nth_equalityI) (simp_all add: even_distribution_def Let_def)

lemma bounds_even_distribution:
  assumes "0 \<le> A" and "list_all LevelAvailability_fields_ok ls"
  shows "list_all2 (\<lambda>l r. 0 \<le> LevelRecommendation.count r
                          \<and> LevelRecommendation.count r \<le> LevelAvailability.count l)
           ls (even_distribution ls A)"
proof (cases "ls = []")
  case True
  then show ?thesis by (simp add: even_distribution_def)
next
  case False
  then have "0 < int (length ls)" by simp
  then have b: "0 \<le> A div int (length ls)"
    using assms(1) by (simp add: pos_imp_zdiv_nonneg_iff)
  have c: "0 \<le> LevelAvailability.count (ls ! i)" if "i < length ls" for i
    using assms(2) that by (simp add: list_all_length LevelAvailability_fields_ok_def)
  show ?thesis
    using b c by (simp add: list_all2_conv_all_nth even_distribution_def Let_def)
qed

lemma sum_even_distribution:
  assumes "0 \<le> A"
  shows "sum_list (map LevelRecommendation.count (even_distribution ls A)) \<le> A"
proof (cases "ls = []")
  case True
  then show ?thesis using assms by (simp add: even_distribution_def)
next
  case False
  then have n: "0 < length ls" by simp
  have "sum_list (map LevelRecommendation.count (even_distribution ls A))
        \<le> sum_list (map (\<lambda>i. questions_for_level (A div int (length ls))
                                  (A mod int (length ls)) (int i)) [0..<length ls])"
    unfolding even_distribution_def Let_def map_map
    by (rule sum_list_mono) (simp add: questions_for_level_def)
  also have "\<dots> = A" by (rule sum_questions_for_level [OF n])
  finally show ?thesis .
qed

lemma calculate_topic_allocation_closed:
  "calculate_topic_allocation self t T ts =
     Inr (if ts = [] then 0 else T div int (length ts))"
  by (simp add: calculate_topic_allocation_def py_floordiv_def Let_def)

lemma recommend_for_topic_closed:
  assumes "ts \<noteq> []" and "0 \<le> T" and "TopicAvailability_fields_ok t"
  shows "recommend_for_topic recommendation_service t T p (Some ts) =
           Inr (expected_topic (T div int (length ts)) t)"
proof -
  have "0 < int (length ts)" using assms(1) by simp
  then have a: "0 \<le> T div int (length ts)"
    using assms(2) by (simp add: pos_imp_zdiv_nonneg_iff)
  have ok: "list_all LevelAvailability_fields_ok (available t)"
    using assms(3) by (simp add: TopicAvailability_fields_ok_def)
  show ?thesis
    using assms(1) Even_distribute_closed [OF a ok, of p]
    by (simp add: recommend_for_topic_def calculate_topic_allocation_closed
        recommendation_service_def RecommendationService_init_def expected_topic_def)
qed

lemma recommend_loop_closed:
  assumes "user_topics request \<noteq> []" and "0 \<le> total_questions request"
    and "list_all TopicAvailability_fields_ok ts"
  shows "recommend_loop recommendation_service lk request ts =
           Inr (map (expected_topic
                  (total_questions request div int (length (user_topics request)))) ts)"
  using assms(3)
proof (induction ts)
  case Nil
  show ?case by simp
next
  case (Cons t ts)
  from Cons.prems have t: "TopicAvailability_fields_ok t"
    and rest: "list_all TopicAvailability_fields_ok ts"
    by simp_all
  show ?case
    by (simp add: recommend_for_topic_closed [OF assms(1,2) t] Cons.IH [OF rest])
qed

lemma generate_recommendations_closed:
  assumes "user_topics request \<noteq> []" and "0 \<le> total_questions request"
    and "list_all TopicAvailability_fields_ok (user_topics request)"
  shows "generate_recommendations recommendation_service request =
           Inr \<lparr>topics = map (expected_topic
                  (total_questions request div int (length (user_topics request))))
                  (user_topics request)\<rparr>"
  by (simp add: generate_recommendations_def recommend_loop_closed [OF assms])

lemma validate_topics_ok_iff:
  "validate_topics ts = Inr () \<longleftrightarrow>
     list_all (\<lambda>t. available t \<noteq> []
                  \<and> sum_list (map LevelAvailability.count (available t)) \<noteq> 0) ts"
  by (induction ts) (simp_all add: Let_def)

lemma validate_ok_iff:
  "validate_recommendation_request request = Inr () \<longleftrightarrow>
     user_topics request \<noteq> [] \<and> 0 < total_questions request
     \<and> list_all (\<lambda>t. available t \<noteq> []
                  \<and> sum_list (map LevelAvailability.count (available t)) \<noteq> 0)
          (user_topics request)"
  by (auto simp: validate_recommendation_request_def validate_topics_ok_iff)

text \<open>
  C1. For a non-empty list of levels whose counts satisfy the model's \<open>ge=0\<close> constraint
  and an allocation \<open>A \<ge> 0\<close>, the even distributor returns one recommendation per level,
  in input order; the level at index \<open>i\<close> keeps its level identifier and receives
  \<open>min (A // L + (1 if i < A mod L else 0))\<close> of its available count. On the empty list of
  levels it returns the empty list.
\<close>

theorem even_distribution_per_level:
  assumes "levels \<noteq> []" and "0 \<le> A"
    and "list_all LevelAvailability_fields_ok levels"
  shows "Even_distribute_questions levels A p =
           Inr (map (\<lambda>i. \<lparr>LevelRecommendation.level = LevelAvailability.level (levels ! i),
                            LevelRecommendation.count =
                              min (A div int (length levels)
                                   + (if int i < A mod int (length levels) then 1 else 0))
                                  (LevelAvailability.count (levels ! i))\<rparr>)
                    [0..<length levels])
         \<and> Even_distribute_questions [] A p = Inr []"
proof
  show "Even_distribute_questions levels A p =
           Inr (map (\<lambda>i. \<lparr>LevelRecommendation.level = LevelAvailability.level (levels ! i),
                            LevelRecommendation.count =
                              min (A div int (length levels)
                                   + (if int i < A mod int (length levels) then 1 else 0))
                                  (LevelAvailability.count (levels ! i))\<rparr>)
                    [0..<length levels])"
    using Even_distribute_closed [OF assms(2,3), of p]
    by (simp add: even_distribution_def Let_def)
  show "Even_distribute_questions [] A p = Inr []"
    by (simp add: Even_distribute_questions_def)
qed

theorem even_distribution_per_level_witness:
  "[mk_level 1 2, mk_level 2 100] \<noteq> [] \<and> (0::int) \<le> 5
   \<and> list_all LevelAvailability_fields_ok [mk_level 1 2, mk_level 2 100]
   \<and> Even_distribute_questions [mk_level 1 2, mk_level 2 100] 5 None = Inr [mk_rec 1 2, mk_rec 2 2]
   \<and> Even_distribute_questions [] 5 None = Inr []"
proof -
  have ok: "list_all LevelAvailability_fields_ok [mk_level 1 2, mk_level 2 100]"
    by (simp add: LevelAvailability_fields_ok_def mk_level_def)
  have ne: "[mk_level 1 2, mk_level 2 100] \<noteq> []" by simp
  have nn: "(0::int) \<le> 5" by simp
  show ?thesis
    using ok even_distribution_per_level [OF ne nn ok, of None]
    by (simp add: example_defs)
qed

lemma even_distribution_clamps_raw:
  "even_distribution levels A =
     map2 (\<lambda>q level_data. \<lparr>LevelRecommendation.level = LevelAvailability.level level_data,
                             LevelRecommendation.count = min q (LevelAvailability.count level_data)\<rparr>)
       (map (\<lambda>i. questions_for_level (A div int (length levels)) (A mod int (length levels))
                    (int i)) [0..<length levels])
       levels"
  by (rule nth_equalityI) (simp_all add: even_distribution_def Let_def questions_for_level_def)

lemma unclamped_counts:
  assumes "length raw = length levels"
    and "list_all2 (\<lambda>q level_data. q \<le> LevelAvailability.count level_data) raw levels"
  shows "map LevelRecommendation.count
           (map2 (\<lambda>q level_data. \<lparr>LevelRecommendation.level = LevelAvailability.level level_data,
                                   LevelRecommendation.count =
                                     min q (LevelAvailability.count level_data)\<rparr>) raw levels)
         = raw"
  using assms by (intro nth_equalityI) (simp_all add: list_all2_conv_all_nth)

text \<open>
  C7. For a non-empty list of \<open>L\<close> levels and an allocation \<open>A \<ge> 0\<close>, the distributor's
  pre-clamp counts (\<open>questions_for_level\<close> at the indices \<open>0 .. L - 1\<close>, with the
  \<open>base = A // L\<close> and \<open>extra = A mod L\<close> it computes) sum to \<open>A\<close> exactly, and
  \<open>base * L + extra = A\<close>. They are the distributor's raw counts: what it returns is each of
  them clamped to its level's available count, so wherever no clamp applies the returned
  counts are the raw counts and sum to \<open>A\<close>.
\<close>

theorem raw_counts_sum_to_allocation:
  assumes "levels \<noteq> []" and "0 \<le> A"
    and "list_all LevelAvailability_fields_ok levels"
  shows "\<exists>raw rs.
           raw = map (\<lambda>i. questions_for_level (A div int (length levels))
                            (A mod int (length levels)) (int i)) [0..<length levels]
           \<and> sum_list raw = A
           \<and> (A div int (length levels)) * int (length levels) + A mod int (length levels) = A
           \<and> Even_distribute_questions levels A p = Inr rs
           \<and> rs = map2 (\<lambda>q level_data.
                          \<lparr>LevelRecommendation.level = LevelAvailability.level level_data,
                           LevelRecommendation.count =
                             min q (LevelAvailability.count level_data)\<rparr>) raw levels
           \<and> (list_all2 (\<lambda>q level_data. q \<le> LevelAvailability.count level_data) raw levels
                \<longrightarrow> map LevelRecommendation.count rs = raw
                    \<and> sum_list (map LevelRecommendation.count rs) = A)"
proof -
  let ?raw = "map (\<lambda>i. questions_for_level (A div int (length levels))
                          (A mod int (length levels)) (int i)) [0..<length levels]"
  let ?rs = "map2 (\<lambda>q level_data.
                     \<lparr>LevelRecommendation.level = LevelAvailability.level level_data,
                      LevelRecommendation.count =
                        min q (LevelAvailability.count level_data)\<rparr>) ?raw levels"
  from assms(1) have n: "0 < length levels" by simp
  have s: "sum_list ?raw = A" by (rule sum_questions_for_level [OF n])
  have d: "(A div int (length levels)) * int (length levels) + A mod int (length levels) = A"
    by simp
  have e: "Even_distribute_questions levels A p = Inr ?rs"
    using Even_distribute_closed [OF assms(2,3), of p]
    by (simp only: even_distribution_clamps_raw)
  have u: "map LevelRecommendation.count ?rs = ?raw
           \<and> sum_list (map LevelRecommendation.count ?rs) = A"
    if "list_all2 (\<lambda>q level_data. q \<le> LevelAvailability.count level_data) ?raw levels"
  proof -
    have "length ?raw = length levels" by simp
    from unclamped_counts [OF this that] s show ?thesis by simp
  qed
  from s d e u show ?thesis by blast
qed

theorem raw_counts_sum_to_allocation_witness:
  "[mk_level 1 10, mk_level 2 100] \<noteq> [] \<and> (0::int) \<le> 5
   \<and> list_all LevelAvailability_fields_ok [mk_level 1 10, mk_level 2 100]
   \<and> map (\<lambda>i. questions_for_level (5 div 2) (5 mod 2) (int i)) [0..<2] = [3, 2]
   \<and> list_all2 (\<lambda>q level_data. q \<le> LevelAvailability.count level_data)
        [3, 2] [mk_level 1 10, mk_level 2 100]
   \<and> Even_distribute_questions [mk_level 1 10, mk_level 2 100] 5 None
       = Inr [mk_rec 1 3, mk_rec 2 2]
   \<and> sum_list (map LevelRecommendation.count [mk_rec 1 3, mk_rec 2 2]) = 5"
proof -
  have ne: "[mk_level 1 10, mk_level 2 100] \<noteq> []" by simp
  have nn: "(0::int) \<le> 5" by simp
  have ok: "list_all LevelAvailability_fields_ok [mk_level 1 10, mk_level 2 100]"
    by (simp add: LevelAvailability_fields_ok_def mk_level_def)
  have raw: "map (\<lambda>i. questions_for_level (5 div 2) (5 mod 2) (int i)) [0..<2] = [3, 2]"
    by (simp add: questions_for_level_def upt_rec)
  have le: "list_all2 (\<lambda>q level_data. q \<le> LevelAvailability.count level_data)
        [3, 2] [mk_level 1 10, mk_level 2 100]"
    by (simp add: mk_level_def)
  from raw_counts_sum_to_allocation [OF ne nn ok, of None]
  obtain raw rs where r:
    "raw = map (\<lambda>i. questions_for_level (5 div int (length [mk_level 1 10, mk_level 2 100]))
                     (5 mod int (length [mk_level 1 10, mk_level 2 100])) (int i))
             [0..<length [mk_level 1 10, mk_level 2 100]]"
    "Even_distribute_questions [mk_level 1 10, mk_level 2 100] 5 None = Inr rs"
    "rs = map2 (\<lambda>q level_data.
                  \<lparr>LevelRecommendation.level = LevelAvailability.level level_data,
                   LevelRecommendation.count = min q (LevelAvailability.count level_data)\<rparr>)
            raw [mk_level 1 10, mk_level 2 100]"
    "list_all2 (\<lambda>q level_data. q \<le> LevelAvailability.count level_data) raw
        [mk_level 1 10, mk_level 2 100]
       \<longrightarrow> map LevelRecommendation.count rs = raw
           \<and> sum_list (map LevelRecommendation.count rs) = 5"
    by blast
  from r(1) have raw32: "raw = [3, 2]"
    by (simp add: questions_for_level_def upt_rec)
  from r(3) raw32 have rs: "rs = [mk_rec 1 3, mk_rec 2 2]"
    by (simp add: example_defs)
  from r(4) raw32 le have "sum_list (map LevelRecommendation.count rs) = 5" by simp
  with r(2) rs ne nn ok raw le show ?thesis by simp
qed

text \<open>
  C8. On every input the progress-aware strategy returns what the even strategy returns,
  called directly or through the strategy object.
\<close>

theorem progress_aware_is_even:
  "ProgressAware_distribute_questions levels A p = Even_distribute_questions levels A p
   \<and> distribute_questions ProgressAwareDistributionStrategy levels A p
       = distribute_questions EvenDistributionStrategy levels A p"
  by (simp add: ProgressAware_distribute_questions_def)

section \<open>The service and the endpoint\<close>

lemma request_7_fields_ok: "RecommendationRequest_fields_ok request_7"
  by (simp add: request_7_def eval_defs example_defs)

lemma request_7_valid: "validate_recommendation_request request_7 = Inr ()"
  by (simp add: request_7_def eval_defs example_defs)

lemma request_7_response:
  "generate_recommendations recommendation_service request_7 = Inr response_7"
  by (simp add: request_7_def response_7_def eval_defs example_defs)

text \<open>
  C2. For \<open>T \<ge> 1\<close> and a non-empty list of \<open>N\<close> topics, the allocator returns \<open>T // N\<close>
  for every current topic, whatever its availability, so the list of per-topic allocations
  is \<open>N\<close> copies of \<open>T // N\<close>; its sum is \<open>N * (T // N) \<le> T\<close> and the shortfall is
  \<open>T mod N\<close>, which no topic receives. For the empty topic list the allocation is 0.
\<close>

theorem topic_allocation_floor:
  assumes "1 \<le> T" and "ts \<noteq> []"
  shows "calculate_topic_allocation self t T ts = Inr (T div int (length ts))
         \<and> map (\<lambda>t. calculate_topic_allocation self t T ts) ts
             = replicate (length ts) (Inr (T div int (length ts)))
         \<and> sum_list (replicate (length ts) (T div int (length ts)))
             = int (length ts) * (T div int (length ts))
         \<and> int (length ts) * (T div int (length ts)) \<le> T
         \<and> T - int (length ts) * (T div int (length ts)) = T mod int (length ts)
         \<and> calculate_topic_allocation self t T [] = Inr 0"
proof -
  have n: "0 < int (length ts)" using assms(2) by simp
  have "int (length ts) * (T div int (length ts)) + T mod int (length ts) = T"
    by simp
  moreover have "0 \<le> T mod int (length ts)" using n by simp
  ultimately have le: "int (length ts) * (T div int (length ts)) \<le> T"
    and sh: "T - int (length ts) * (T div int (length ts)) = T mod int (length ts)"
    by linarith+
  have m: "map (\<lambda>t. calculate_topic_allocation self t T ts) ts
             = replicate (length ts) (Inr (T div int (length ts)))"
    using assms(2) by (simp add: calculate_topic_allocation_closed map_replicate_const)
  show ?thesis
    using assms(2) le sh m
    by (simp add: calculate_topic_allocation_closed sum_list_replicate)
qed

theorem topic_allocation_floor_witness:
  "(1::int) \<le> 7 \<and> [mk_topic ''A'' [mk_level 1 10], mk_topic ''B'' [mk_level 1 10]] \<noteq> []
   \<and> map (\<lambda>t. calculate_topic_allocation recommendation_service t 7
                  [mk_topic ''A'' [mk_level 1 10], mk_topic ''B'' [mk_level 1 10]])
          [mk_topic ''A'' [mk_level 1 10], mk_topic ''B'' [mk_level 1 10]]
       = [Inr 3, Inr 3]
   \<and> (7::int) - 2 * 3 = 1"
proof -
  have T: "(1::int) \<le> 7" by simp
  have ne: "[mk_topic ''A'' [mk_level 1 10], mk_topic ''B'' [mk_level 1 10]] \<noteq> []" by simp
  show ?thesis
    using topic_allocation_floor [OF T ne, of recommendation_service "mk_topic ''A'' [mk_level 1 10]"]
    by (simp add: numeral_2_eq_2)
qed

text \<open>
  C3. For a request that satisfies the model's field constraints and passes validation,
  the service returns a response (which the endpoint returns unchanged) in which every
  level recommendation has \<open>0 \<le> count \<le>\<close> the available count of the corresponding
  input level.
\<close>

theorem recommended_within_available:
  assumes "RecommendationRequest_fields_ok request"
    and "validate_recommendation_request request = Inr ()"
  shows "\<exists>response.
           generate_recommendations recommendation_service request = Inr response
           \<and> recommend_questions request = Inr response
           \<and> list_all2
                (\<lambda>t r. list_all2
                          (\<lambda>l c. 0 \<le> LevelRecommendation.count c
                                 \<and> LevelRecommendation.count c \<le> LevelAvailability.count l)
                          (available t) (recommendations r))
                (user_topics request) (topics response)"
proof -
  from assms(1) have T: "0 \<le> total_questions request"
    and ok: "list_all TopicAvailability_fields_ok (user_topics request)"
    by (simp_all add: RecommendationRequest_fields_ok_def)
  from assms(2) have ne: "user_topics request \<noteq> []"
    by (simp add: validate_ok_iff)
  let ?a = "total_questions request div int (length (user_topics request))"
  let ?resp = "\<lparr>topics = map (expected_topic ?a) (user_topics request)\<rparr>"
  have g: "generate_recommendations recommendation_service request = Inr ?resp"
    by (rule generate_recommendations_closed [OF ne T ok])
  have "0 < int (length (user_topics request))" using ne by simp
  then have a: "0 \<le> ?a" using T by (simp add: pos_imp_zdiv_nonneg_iff)
  have inner: "list_all2
          (\<lambda>l c. 0 \<le> LevelRecommendation.count c
                 \<and> LevelRecommendation.count c \<le> LevelAvailability.count l)
          (available t) (recommendations (expected_topic ?a t))"
    if "t \<in> set (user_topics request)" for t
  proof -
    from ok that have "list_all LevelAvailability_fields_ok (available t)"
      by (simp add: list_all_iff TopicAvailability_fields_ok_def)
    from bounds_even_distribution [OF a this] show ?thesis
      by (simp add: expected_topic_def)
  qed
  have "list_all2
          (\<lambda>t r. list_all2
                    (\<lambda>l c. 0 \<le> LevelRecommendation.count c
                           \<and> LevelRecommendation.count c \<le> LevelAvailability.count l)
                    (available t) (recommendations r))
          (user_topics request) (topics ?resp)"
    using inner by (simp add: list_all2_map2 list_all2_same)
  moreover have "recommend_questions request = Inr ?resp"
    using g assms(2) by (simp add: recommend_questions_def)
  ultimately show ?thesis using g by blast
qed

theorem recommended_within_available_witness:
  "RecommendationRequest_fields_ok request_7
   \<and> validate_recommendation_request request_7 = Inr ()
   \<and> generate_recommendations recommendation_service request_7 = Inr response_7
   \<and> (\<exists>response.
           generate_recommendations recommendation_service request_7 = Inr response
           \<and> recommend_questions request_7 = Inr response
           \<and> list_all2
                (\<lambda>t r. list_all2
                          (\<lambda>l c. 0 \<le> LevelRecommendation.count c
                                 \<and> LevelRecommendation.count c \<le> LevelAvailability.count l)
                          (available t) (recommendations r))
                (user_topics request_7) (topics response))"
  using recommended_within_available [OF request_7_fields_ok request_7_valid]
    request_7_fields_ok request_7_valid request_7_response
  by simp

lemma distribute_questions_progress:
  "distribute_questions s ls n p = distribute_questions s ls n p'"
  by (cases s)
    (simp_all add: ProgressAware_distribute_questions_def Even_distribute_questions_def)

lemma recommend_for_topic_progress:
  "recommend_for_topic self t T p ts = recommend_for_topic self t T p' ts"
  by (simp add: recommend_for_topic_def distribute_questions_progress [of _ _ _ p p']
      cong: sum.case_cong)

lemma recommend_loop_progress:
  assumes "total_questions r1 = total_questions r2" and "user_topics r1 = user_topics r2"
  shows "recommend_loop self lk1 r1 ts = recommend_loop self lk2 r2 ts"
proof (induction ts)
  case Nil
  show ?case by simp
next
  case (Cons t ts)
  show ?case
    unfolding recommend_loop.simps assms Cons.IH
    using recommend_for_topic_progress
      [of self t "total_questions r2" "lk1 (TopicAvailability.topic t)"
        "Some (user_topics r2)" "lk2 (TopicAvailability.topic t)"]
    by simp
qed

lemma validate_progress:
  assumes "total_questions r1 = total_questions r2" and "user_topics r1 = user_topics r2"
  shows "validate_recommendation_request r1 = validate_recommendation_request r2"
  by (simp add: validate_recommendation_request_def assms)

lemma request_7_progress_fields_ok: "RecommendationRequest_fields_ok request_7_progress"
  by (simp add: request_7_progress_def progress_a_def request_7_def eval_defs example_defs)

text \<open>
  C5. Two requests that agree on every field but \<open>user_progress\<close> get the same result
  from the service and from the endpoint: the response, or the same failure.
\<close>

theorem progress_never_influences_output:
  assumes "user_id r1 = user_id r2"
    and "total_questions r1 = total_questions r2"
    and "user_topics r1 = user_topics r2"
  shows "generate_recommendations self r1 = generate_recommendations self r2
         \<and> recommend_questions r1 = recommend_questions r2"
proof -
  have g: "generate_recommendations s r1 = generate_recommendations s r2" for s
    unfolding generate_recommendations_def Let_def assms(3)
    using recommend_loop_progress [OF assms(2,3), where self = s
        and ?lk1.0 = "create_progress_lookup (user_progress r1)"
        and ?lk2.0 = "create_progress_lookup (user_progress r2)"
        and ts = "user_topics r2"]
    by simp
  show ?thesis
    using g validate_progress [OF assms(2,3)]
    by (simp add: recommend_questions_def cong: sum.case_cong)
qed

theorem progress_never_influences_output_witness:
  "user_progress request_7 \<noteq> user_progress request_7_progress
   \<and> RecommendationRequest_fields_ok request_7
   \<and> RecommendationRequest_fields_ok request_7_progress
   \<and> validate_recommendation_request request_7_progress = Inr ()
   \<and> generate_recommendations recommendation_service request_7_progress = Inr response_7
   \<and> recommend_questions request_7_progress = recommend_questions request_7"
proof -
  have a: "user_id request_7 = user_id request_7_progress"
    and b: "total_questions request_7 = total_questions request_7_progress"
    and c: "user_topics request_7 = user_topics request_7_progress"
    by (simp_all add: request_7_progress_def)
  have d: "user_progress request_7 \<noteq> user_progress request_7_progress"
    by (simp add: request_7_progress_def request_7_def example_defs)
  have e: "validate_recommendation_request request_7_progress = Inr ()"
    using request_7_valid validate_progress [OF b c] by simp
  show ?thesis
    using progress_never_influences_output [OF a b c, of recommendation_service]
      d e request_7_fields_ok request_7_progress_fields_ok request_7_response
    by simp
qed

text \<open>
  C6. For a request that satisfies the model's field constraints and passes validation,
  the response has one topic recommendation per input topic, in input order and under the
  topic's name, and each has one level recommendation per input level of that topic, in
  input order and under the level's identifier.
\<close>

theorem order_preserved:
  assumes "RecommendationRequest_fields_ok request"
    and "validate_recommendation_request request = Inr ()"
  shows "\<exists>response.
           generate_recommendations recommendation_service request = Inr response
           \<and> recommend_questions request = Inr response
           \<and> length (topics response) = length (user_topics request)
           \<and> map name (topics response) = map TopicAvailability.topic (user_topics request)
           \<and> list_all2
                (\<lambda>t r. length (recommendations r) = length (available t)
                        \<and> map LevelRecommendation.level (recommendations r)
                            = map LevelAvailability.level (available t))
                (user_topics request) (topics response)"
proof -
  from assms(1) have T: "0 \<le> total_questions request"
    and ok: "list_all TopicAvailability_fields_ok (user_topics request)"
    by (simp_all add: RecommendationRequest_fields_ok_def)
  from assms(2) have ne: "user_topics request \<noteq> []"
    by (simp add: validate_ok_iff)
  let ?a = "total_questions request div int (length (user_topics request))"
  let ?resp = "\<lparr>topics = map (expected_topic ?a) (user_topics request)\<rparr>"
  have g: "generate_recommendations recommendation_service request = Inr ?resp"
    by (rule generate_recommendations_closed [OF ne T ok])
  have e: "recommend_questions request = Inr ?resp"
    using g assms(2) by (simp add: recommend_questions_def)
  have n: "map name (topics ?resp) = map TopicAvailability.topic (user_topics request)"
    by (simp add: expected_topic_def)
  have l: "list_all2
             (\<lambda>t r. length (recommendations r) = length (available t)
                     \<and> map LevelRecommendation.level (recommendations r)
                         = map LevelAvailability.level (available t))
             (user_topics request) (topics ?resp)"
    by (simp add: list_all2_map2 list_all2_same expected_topic_def
        length_even_distribution levels_even_distribution)
  have "length (topics ?resp) = length (user_topics request)" by simp
  with g e n l show ?thesis by blast
qed

theorem order_preserved_witness:
  "RecommendationRequest_fields_ok request_7
   \<and> validate_recommendation_request request_7 = Inr ()
   \<and> map TopicAvailability.topic (user_topics request_7) = [''A'', ''B'']
   \<and> map (map LevelAvailability.level \<circ> available) (user_topics request_7) = [[1], [1, 2]]
   \<and> (\<exists>response.
           generate_recommendations recommendation_service request_7 = Inr response
           \<and> recommend_questions request_7 = Inr response
           \<and> length (topics response) = length (user_topics request_7)
           \<and> map name (topics response) = [''A'', ''B'']
           \<and> map (map LevelRecommendation.level \<circ> recommendations) (topics response)
               = [[1], [1, 2]])"
proof -
  have t: "map TopicAvailability.topic (user_topics request_7) = [''A'', ''B'']"
    and l: "map (map LevelAvailability.level \<circ> available) (user_topics request_7) = [[1], [1, 2]]"
    by (simp_all add: request_7_def example_defs)
  from order_preserved [OF request_7_fields_ok request_7_valid]
  obtain response where
    r: "generate_recommendations recommendation_service request_7 = Inr response"
       "recommend_questions request_7 = Inr response"
       "length (topics response) = length (user_topics request_7)"
       "map name (topics response) = map TopicAvailability.topic (user_topics request_7)"
    by blast
  from r(1) have "response = response_7" by (simp add: request_7_response)
  then have "map (map LevelRecommendation.level \<circ> recommendations) (topics response)
               = [[1], [1, 2]]"
    by (simp add: response_7_def example_defs)
  with r t l request_7_fields_ok request_7_valid show ?thesis by auto
qed

lemma total_expected_topic:
  assumes "0 \<le> a"
  shows "TopicRecommendation_total_recommended (expected_topic a t) \<le> a"
  using sum_even_distribution [OF assms, of "available t"]
  by (simp add: TopicRecommendation_total_recommended_def expected_topic_def)

lemma floor_times_le:
  assumes "0 < n"
  shows "n * (T div n) \<le> (T::int)"
proof -
  have "n * (T div n) + T mod n = T" by simp
  moreover have "0 \<le> T mod n" using assms by simp
  ultimately show ?thesis by linarith
qed

lemma distribute_loop_no_zero_division:
  "distribute_loop b e i ls \<noteq> Inl ZeroDivisionError"
  by (induction ls arbitrary: i)
    (auto simp: LevelRecommendation_new_def Let_def split: sum.splits)

lemma Even_no_zero_division:
  "Even_distribute_questions ls A p \<noteq> Inl ZeroDivisionError"
  by (simp add: Even_distribute_questions_def py_floordiv_def py_mod_def Let_def
      distribute_loop_no_zero_division)

text \<open>
  C9. For a request that satisfies the model's field constraints and passes validation,
  every topic's recommended total is at most its allocation \<open>T // N\<close>, the \<open>N\<close>
  allocations sum to at most \<open>T\<close>, and so the response's \<open>total_recommended\<close> is at most
  \<open>total_questions\<close>.
\<close>

theorem total_recommended_bounded:
  assumes "RecommendationRequest_fields_ok request"
    and "validate_recommendation_request request = Inr ()"
  shows "\<exists>response.
           generate_recommendations recommendation_service request = Inr response
           \<and> recommend_questions request = Inr response
           \<and> list_all (\<lambda>r. TopicRecommendation_total_recommended r
                              \<le> total_questions request div int (length (user_topics request)))
                (topics response)
           \<and> int (length (user_topics request))
               * (total_questions request div int (length (user_topics request)))
               \<le> total_questions request
           \<and> total_recommended response \<le> total_questions request"
proof -
  from assms(1) have T: "0 \<le> total_questions request"
    and ok: "list_all TopicAvailability_fields_ok (user_topics request)"
    by (simp_all add: RecommendationRequest_fields_ok_def)
  from assms(2) have ne: "user_topics request \<noteq> []"
    by (simp add: validate_ok_iff)
  let ?n = "int (length (user_topics request))"
  let ?a = "total_questions request div ?n"
  let ?resp = "\<lparr>topics = map (expected_topic ?a) (user_topics request)\<rparr>"
  have g: "generate_recommendations recommendation_service request = Inr ?resp"
    by (rule generate_recommendations_closed [OF ne T ok])
  have e: "recommend_questions request = Inr ?resp"
    using g assms(2) by (simp add: recommend_questions_def)
  have n: "0 < ?n" using ne by simp
  then have a: "0 \<le> ?a" using T by (simp add: pos_imp_zdiv_nonneg_iff)
  have each: "list_all (\<lambda>r. TopicRecommendation_total_recommended r \<le> ?a) (topics ?resp)"
    using total_expected_topic [OF a] by (simp add: list_all_iff)
  have le: "?n * ?a \<le> total_questions request"
    by (rule floor_times_le [OF n])
  have "total_recommended ?resp
        = sum_list (map (\<lambda>t. TopicRecommendation_total_recommended (expected_topic ?a t))
            (user_topics request))"
    by (simp add: total_recommended_def comp_def)
  also have "\<dots> \<le> sum_list (map (\<lambda>t. ?a) (user_topics request))"
    by (rule sum_list_mono) (rule total_expected_topic [OF a])
  also have "\<dots> = ?n * ?a" by (simp add: sum_list_triv)
  finally have "total_recommended ?resp \<le> total_questions request"
    using le by linarith
  with g e each le show ?thesis by blast
qed

theorem total_recommended_bounded_witness:
  "RecommendationRequest_fields_ok request_7
   \<and> validate_recommendation_request request_7 = Inr ()
   \<and> generate_recommendations recommendation_service request_7 = Inr response_7
   \<and> total_recommended response_7 = 6
   \<and> total_questions request_7 = 7
   \<and> (\<exists>response.
          generate_recommendations recommendation_service request_7 = Inr response
          \<and> total_recommended response \<le> total_questions request_7)"
proof -
  have t: "total_recommended response_7 = 6"
    by (simp add: response_7_def eval_defs example_defs)
  have q: "total_questions request_7 = 7"
    by (simp add: request_7_def example_defs)
  from total_recommended_bounded [OF request_7_fields_ok request_7_valid]
  have "\<exists>response.
          generate_recommendations recommendation_service request_7 = Inr response
          \<and> total_recommended response \<le> total_questions request_7"
    by blast
  with t q request_7_fields_ok request_7_valid request_7_response show ?thesis
    by blast
qed

text \<open>
  C10. For a request with at least one topic, \<open>total_questions \<ge> 1\<close>, a non-empty level
  list in every topic and every level count \<open>\<ge> 0\<close>, \<open>generate_recommendations\<close> returns a
  response. Neither division can raise on any input: the one by the topic count is guarded
  by \<open>total_topics > 0\<close>, the one by the level count by the early return on no levels.
\<close>

theorem generate_recommendations_completes:
  assumes "user_topics request \<noteq> []" and "1 \<le> total_questions request"
    and "list_all (\<lambda>t. available t \<noteq> []) (user_topics request)"
    and "list_all (\<lambda>t. list_all (\<lambda>l. 0 \<le> LevelAvailability.count l) (available t))
           (user_topics request)"
  shows "(\<exists>response. generate_recommendations recommendation_service request = Inr response)
         \<and> calculate_topic_allocation self t T ts \<noteq> Inl ZeroDivisionError
         \<and> Even_distribute_questions ls A p \<noteq> Inl ZeroDivisionError"
proof -
  have T: "0 \<le> total_questions request" using assms(2) by simp
  have ok: "list_all TopicAvailability_fields_ok (user_topics request)"
    using assms(4)
    by (simp add: list_all_iff TopicAvailability_fields_ok_def LevelAvailability_fields_ok_def)
  show ?thesis
    by (simp add: generate_recommendations_closed [OF assms(1) T ok]
        calculate_topic_allocation_closed Even_no_zero_division)
qed

theorem generate_recommendations_completes_witness:
  "user_topics request_7 \<noteq> [] \<and> 1 \<le> total_questions request_7
   \<and> list_all (\<lambda>t. available t \<noteq> []) (user_topics request_7)
   \<and> list_all (\<lambda>t. list_all (\<lambda>l. 0 \<le> LevelAvailability.count l) (available t))
        (user_topics request_7)
   \<and> generate_recommendations recommendation_service request_7 = Inr response_7
   \<and> (\<exists>response. generate_recommendations recommendation_service request_7 = Inr response)"
proof -
  have a: "user_topics request_7 \<noteq> []"
    and b: "1 \<le> total_questions request_7"
    and c: "list_all (\<lambda>t. available t \<noteq> []) (user_topics request_7)"
    and d: "list_all (\<lambda>t. list_all (\<lambda>l. 0 \<le> LevelAvailability.count l) (available t))
              (user_topics request_7)"
    by (simp_all add: request_7_def example_defs)
  show ?thesis
    using generate_recommendations_completes [OF a b c d] a b c d request_7_response
    by simp
qed

section \<open>Validation\<close>

lemma messages_distinct:
  "distinct [msg_no_topics, msg_total_questions, msg_no_levels a, msg_no_questions b]"
proof -
  have "last (msg_no_levels a) = CHR ''l''" by (simp add: msg_no_levels_def)
  moreover have "last (msg_no_questions b) = CHR ''s''" by (simp add: msg_no_questions_def)
  ultimately have "msg_no_levels a \<noteq> msg_no_questions b" by auto
  then show ?thesis
    by (simp add: msg_no_topics_def msg_total_questions_def msg_no_levels_def
        msg_no_questions_def)
qed

lemma validate_topics_closed:
  "validate_topics ts =
     (case find (\<lambda>t. available t = []
                       \<or> sum_list (map LevelAvailability.count (available t)) = 0) ts of
        None \<Rightarrow> Inr ()
      | Some t \<Rightarrow>
          Inl (ValueError (if available t = [] then msg_no_levels (TopicAvailability.topic t)
                           else msg_no_questions (TopicAvailability.topic t))))"
  by (induction ts) (simp_all add: Let_def)

lemma validate_closed:
  "validate_recommendation_request request =
     (if user_topics request = [] then Inl (ValueError msg_no_topics)
      else if total_questions request \<le> 0 then Inl (ValueError msg_total_questions)
      else case find (\<lambda>t. available t = []
                            \<or> sum_list (map LevelAvailability.count (available t)) = 0)
                  (user_topics request) of
             None \<Rightarrow> Inr ()
           | Some t \<Rightarrow>
               Inl (ValueError (if available t = [] then msg_no_levels (TopicAvailability.topic t)
                                else msg_no_questions (TopicAvailability.topic t))))"
  by (simp add: validate_recommendation_request_def validate_topics_closed)

lemma validate_rejects_iff:
  "(\<exists>e. validate_recommendation_request request = Inl e) \<longleftrightarrow>
     (user_topics request = [] \<or> total_questions request \<le> 0
      \<or> (\<exists>t\<in>set (user_topics request). available t = [])
      \<or> (\<exists>t\<in>set (user_topics request).
            sum_list (map LevelAvailability.count (available t)) = 0))"
proof -
  have "(\<exists>e. validate_recommendation_request request = Inl e)
        \<longleftrightarrow> validate_recommendation_request request \<noteq> Inr ()"
    by (cases "validate_recommendation_request request") simp_all
  then show ?thesis
    unfolding validate_ok_iff list_all_iff by auto
qed

lemma validate_raises_ValueError:
  assumes "validate_recommendation_request request = Inl e"
  shows "\<exists>m. e = ValueError m"
  using assms unfolding validate_closed
  by (auto split: if_splits option.splits)

lemma rejected_before_allocation:
  assumes "validate_recommendation_request request = Inl e"
  shows "\<exists>m. e = ValueError m
             \<and> recommend_questions request = Inl (HTTPException 400 (Message m))"
proof -
  from validate_raises_ValueError [OF assms] obtain m where "e = ValueError m" ..
  then show ?thesis using assms by (simp add: recommend_questions_def)
qed

text \<open>
  C4. Validation raises exactly when \<open>user_topics\<close> is empty, or \<open>total_questions \<le> 0\<close>,
  or some topic has no levels, or some topic's counts sum to 0. It raises for the first
  failing rule: no topics, then the total, then the first topic in input order that fails
  a per-topic check, where the empty level list is reported before the zero inventory.
  The four messages are pairwise different for all topic names. When validation raises,
  the endpoint answers with status 400 and that message, whatever the allocation would
  have computed.
\<close>

theorem validation_rejects_in_order:
  "validate_recommendation_request request =
     (if user_topics request = [] then Inl (ValueError msg_no_topics)
      else if total_questions request \<le> 0 then Inl (ValueError msg_total_questions)
      else case find (\<lambda>t. available t = []
                            \<or> sum_list (map LevelAvailability.count (available t)) = 0)
                  (user_topics request) of
             None \<Rightarrow> Inr ()
           | Some t \<Rightarrow>
               Inl (ValueError (if available t = [] then msg_no_levels (TopicAvailability.topic t)
                                else msg_no_questions (TopicAvailability.topic t))))
   \<and> ((\<exists>e. validate_recommendation_request request = Inl e) \<longleftrightarrow>
        (user_topics request = [] \<or> total_questions request \<le> 0
         \<or> (\<exists>t\<in>set (user_topics request). available t = [])
         \<or> (\<exists>t\<in>set (user_topics request).
               sum_list (map LevelAvailability.count (available t)) = 0)))
   \<and> distinct [msg_no_topics, msg_total_questions, msg_no_levels a, msg_no_questions b]
   \<and> (\<forall>e. validate_recommendation_request request = Inl e \<longrightarrow>
          (\<exists>m. e = ValueError m
                \<and> recommend_questions request = Inl (HTTPException 400 (Message m))))"
  using validate_closed [of request] validate_rejects_iff [of request]
    messages_distinct [of a b] rejected_before_allocation [of request]
  by blast

lemma request_bad_validate:
  "validate_recommendation_request request_bad
     = Inl (ValueError ''Topic 'B' must have at least one available level'')"
  by (simp add: request_bad_def eval_defs example_defs msg_no_levels_def)

lemma request_zero_validate:
  "validate_recommendation_request request_zero
     = Inl (ValueError ''Topic 'C' has no available questions'')"
  by (simp add: request_zero_def eval_defs example_defs msg_no_questions_def)

theorem validation_rejects_in_order_witness:
  "validate_recommendation_request request_bad
     = Inl (ValueError ''Topic 'B' must have at least one available level'')
   \<and> recommend_questions request_bad
     = Inl (HTTPException 400 (Message ''Topic 'B' must have at least one available level''))
   \<and> validate_recommendation_request request_zero
     = Inl (ValueError ''Topic 'C' has no available questions'')
   \<and> recommend_questions request_zero
     = Inl (HTTPException 400 (Message ''Topic 'C' has no available questions''))
   \<and> validate_recommendation_request (mk_request 5 [] [])
     = Inl (ValueError ''At least one topic must be provided'')
   \<and> validate_recommendation_request (mk_request 0 [mk_topic ''B'' []] [])
     = Inl (ValueError ''Total questions must be greater than 0'')
   \<and> validate_recommendation_request request_7 = Inr ()"
proof -
  show ?thesis
    using validation_rejects_in_order [of request_bad]
      validation_rejects_in_order [of request_zero]
      validation_rejects_in_order [of "mk_request 5 [] []"]
      validation_rejects_in_order [of "mk_request 0 [mk_topic ''B'' []] []"]
      validation_rejects_in_order [of request_7]
      request_bad_validate request_zero_validate request_7_valid
    by (simp add: example_defs msg_no_topics_def msg_total_questions_def)
qed

end
